theory Spec2Isabelle
  imports Complex_Main
begin

section \<open>Values\<close>

text \<open>
  A parsed JSON document as Python's \<open>json\<close> module delivers it: \<open>dict\<close> (the items in
  insertion order, the keys being strings), \<open>list\<close>, \<open>str\<close>, \<open>int\<close>, \<open>float\<close>,
  \<open>bool\<close> and \<open>None\<close>. A finite float is the rational number it denotes; the source
  never does arithmetic on floats, it only truncates them with \<open>int()\<close>.
\<close>

datatype pyfloat = Finite rat | PosInf | NegInf | NaN

datatype json =
    JObject "(string \<times> json) list"
  | JArray "json list"
  | JString string
  | JInt int
  | JFloat pyfloat
  | JBool bool
  | JNull

text \<open>
  Modelled from the spec: the target types. The mapper builds them with the constructors
  of \<open>pyspark.sql.types\<close>, which is not part of the repository; they are the closed
  variant \<open>TargetType\<close> of the specification, under the library's names, and the
  constructors are taken as data constructors that store their arguments. The mapper can
  hand Python's \<open>None\<close> to \<open>ArrayType\<close> and to \<open>StructField\<close>, so the element type
  and the field type are optional.
\<close>

datatype spark_type =
    ByteType | ShortType | IntegerType | LongType | FloatType | DoubleType
  | StringType | BooleanType | TimestampType | DateType | NullType
  | ArrayType "spark_type option"
  | StructType "struct_field list"
and struct_field =
    StructField (name: string) (dataType: "spark_type option") (nullable: bool)

text \<open>
  The exceptions that can leave the mapper: the two it raises itself (\<open>InvalidJSONType\<close> is
  the \<open>ValueError\<close> of line 71, \<open>EmptyItems\<close> the \<open>Exception\<close> of line 53) and those of
  the Python operations it applies to a value of the wrong shape.
\<close>

datatype error =
    InvalidJSONType json
  | EmptyItems
  | KeyError string
  | TypeError
  | AttributeError
  | ValueError
  | OverflowError

section \<open>Python operations on JSON values\<close>

fun starts_with :: "string \<Rightarrow> string \<Rightarrow> bool" where
  "starts_with [] s = True"
| "starts_with (c # cs) [] = False"
| "starts_with (c # cs) (d # ds) = (c = d \<and> starts_with cs ds)"

fun substring :: "string \<Rightarrow> string \<Rightarrow> bool" where
  "substring k [] = (k = [])"
| "substring k (d # ds) = (starts_with k (d # ds) \<or> substring k ds)"

text \<open>\<open>k in v\<close> for a string \<open>k\<close>.\<close>

fun py_contains :: "string \<Rightarrow> json \<Rightarrow> error + bool" where
  "py_contains k (JObject kvs) = Inr (map_of kvs k \<noteq> None)"
| "py_contains k (JArray xs) = Inr (JString k \<in> set xs)"
| "py_contains k (JString s) = Inr (substring k s)"
| "py_contains k (JInt n) = Inl TypeError"
| "py_contains k (JFloat x) = Inl TypeError"
| "py_contains k (JBool b) = Inl TypeError"
| "py_contains k JNull = Inl TypeError"

text \<open>\<open>v[k]\<close> for a string \<open>k\<close>.\<close>

fun py_getitem :: "json \<Rightarrow> string \<Rightarrow> error + json" where
  "py_getitem (JObject kvs) k =
     (case map_of kvs k of None \<Rightarrow> Inl (KeyError k) | Some v \<Rightarrow> Inr v)"
| "py_getitem (JArray xs) k = Inl TypeError"
| "py_getitem (JString s) k = Inl TypeError"
| "py_getitem (JInt n) k = Inl TypeError"
| "py_getitem (JFloat x) k = Inl TypeError"
| "py_getitem (JBool b) k = Inl TypeError"
| "py_getitem JNull k = Inl TypeError"

text \<open>\<open>v.get(k, d)\<close> and \<open>v.items()\<close>: methods of \<open>dict\<close> only.\<close>

fun py_get :: "json \<Rightarrow> string \<Rightarrow> json \<Rightarrow> error + json" where
  "py_get (JObject kvs) k d = Inr (case map_of kvs k of None \<Rightarrow> d | Some v \<Rightarrow> v)"
| "py_get (JArray xs) k d = Inl AttributeError"
| "py_get (JString s) k d = Inl AttributeError"
| "py_get (JInt n) k d = Inl AttributeError"
| "py_get (JFloat x) k d = Inl AttributeError"
| "py_get (JBool b) k d = Inl AttributeError"
| "py_get JNull k d = Inl AttributeError"

fun py_items :: "json \<Rightarrow> error + (string \<times> json) list" where
  "py_items (JObject kvs) = Inr kvs"
| "py_items (JArray xs) = Inl AttributeError"
| "py_items (JString s) = Inl AttributeError"
| "py_items (JInt n) = Inl AttributeError"
| "py_items (JFloat x) = Inl AttributeError"
| "py_items (JBool b) = Inl AttributeError"
| "py_items JNull = Inl AttributeError"

fun isinstance_dict :: "json \<Rightarrow> bool" where
  "isinstance_dict (JObject kvs) = True"
| "isinstance_dict (JArray xs) = False"
| "isinstance_dict (JString s) = False"
| "isinstance_dict (JInt n) = False"
| "isinstance_dict (JFloat x) = False"
| "isinstance_dict (JBool b) = False"
| "isinstance_dict JNull = False"

text \<open>\<open>len(v)\<close>, and the elements a \<open>for\<close> loop over \<open>v\<close> visits.\<close>

fun py_len :: "json \<Rightarrow> error + nat" where
  "py_len (JObject kvs) = Inr (length kvs)"
| "py_len (JArray xs) = Inr (length xs)"
| "py_len (JString s) = Inr (length s)"
| "py_len (JInt n) = Inl TypeError"
| "py_len (JFloat x) = Inl TypeError"
| "py_len (JBool b) = Inl TypeError"
| "py_len JNull = Inl TypeError"

fun py_iter :: "json \<Rightarrow> error + json list" where
  "py_iter (JObject kvs) = Inr (map (\<lambda>kv. JString (fst kv)) kvs)"
| "py_iter (JArray xs) = Inr xs"
| "py_iter (JString s) = Inr (map (\<lambda>c. JString [c]) s)"
| "py_iter (JInt n) = Inl TypeError"
| "py_iter (JFloat x) = Inl TypeError"
| "py_iter (JBool b) = Inl TypeError"
| "py_iter JNull = Inl TypeError"

text \<open>
  \<open>int(v)\<close>. Python's parser of integer literals, which \<open>int\<close> applies to a \<open>str\<close>, is the
  parameter \<open>int_of_str\<close> (\<open>None\<close> where it raises \<open>ValueError\<close>).
\<close>

fun py_int :: "(string \<Rightarrow> int option) \<Rightarrow> json \<Rightarrow> error + int" where
  "py_int int_of_str (JInt n) = Inr n"
| "py_int int_of_str (JBool b) = Inr (if b then 1 else 0)"
| "py_int int_of_str (JFloat (Finite q)) = Inr (if 0 \<le> q then \<lfloor>q\<rfloor> else \<lceil>q\<rceil>)"
| "py_int int_of_str (JFloat PosInf) = Inl OverflowError"
| "py_int int_of_str (JFloat NegInf) = Inl OverflowError"
| "py_int int_of_str (JFloat NaN) = Inl ValueError"
| "py_int int_of_str (JString s) =
     (case int_of_str s of None \<Rightarrow> Inl ValueError | Some n \<Rightarrow> Inr n)"
| "py_int int_of_str JNull = Inl TypeError"
| "py_int int_of_str (JArray xs) = Inl TypeError"
| "py_int int_of_str (JObject kvs) = Inl TypeError"

text \<open>\<open>x in range(a, b)\<close> for an integer \<open>x\<close>.\<close>

definition in_range :: "int \<Rightarrow> int \<Rightarrow> int \<Rightarrow> bool" where
  "in_range x a b = (a \<le> x \<and> x < b)"

text \<open>
  A \<open>for\<close> loop over a list whose body updates one variable and may raise: the first
  exception ends the loop.
\<close>

fun for_loop :: "('a \<Rightarrow> 's \<Rightarrow> error + 's) \<Rightarrow> 'a list \<Rightarrow> 's \<Rightarrow> error + 's" where
  "for_loop body [] s = Inr s"
| "for_loop body (x # xs) s =
     (case body x s of Inl e \<Rightarrow> Inl e | Inr s' \<Rightarrow> for_loop body xs s')"

lemma for_loop_cong [fundef_cong]:
  "xs = ys \<Longrightarrow> s = t \<Longrightarrow> (\<And>x u. x \<in> set ys \<Longrightarrow> f x u = g x u)
   \<Longrightarrow> for_loop f xs s = for_loop g ys t"
proof (induction ys arbitrary: xs s t)
  case Nil
  then show ?case by simp
next
  case (Cons y ys)
  then show ?case by (auto split: sum.splits)
qed

section \<open>The mapper\<close>

record inclusive_range =
  rmin :: "int option"
  rmax :: "int option"
  rdefined :: bool

definition determine_inclusive_range ::
  "(string \<Rightarrow> int option) \<Rightarrow> json \<Rightarrow> error + inclusive_range" where
  "determine_inclusive_range int_of_str v =
    (let r0 = \<lparr>rmin = None, rmax = None, rdefined = False\<rparr> in
     (case (case py_contains ''minimum'' v of Inl e \<Rightarrow> Inl e
            | Inr False \<Rightarrow> Inr r0
            | Inr True \<Rightarrow>
               (case py_getitem v ''minimum'' of Inl e \<Rightarrow> Inl e
                | Inr a \<Rightarrow> (case py_int int_of_str a of Inl e \<Rightarrow> Inl e
                            | Inr n \<Rightarrow> Inr (r0\<lparr>rmin := Some n\<rparr>)))) of
        Inl e \<Rightarrow> Inl e
      | Inr r1 \<Rightarrow>
     (case (case py_contains ''exclusiveMinimum'' v of Inl e \<Rightarrow> Inl e
            | Inr False \<Rightarrow> Inr r1
            | Inr True \<Rightarrow>
               (case py_getitem v ''exclusiveMinimum'' of Inl e \<Rightarrow> Inl e
                | Inr a \<Rightarrow> (case py_int int_of_str a of Inl e \<Rightarrow> Inl e
                            | Inr n \<Rightarrow> Inr (r1\<lparr>rmin := Some (n - 1)\<rparr>)))) of
        Inl e \<Rightarrow> Inl e
      | Inr r2 \<Rightarrow>
     (case (case py_contains ''maximum'' v of Inl e \<Rightarrow> Inl e
            | Inr False \<Rightarrow> Inr r2
            | Inr True \<Rightarrow>
               (case py_getitem v ''maximum'' of Inl e \<Rightarrow> Inl e
                | Inr a \<Rightarrow> (case py_int int_of_str a of Inl e \<Rightarrow> Inl e
                            | Inr n \<Rightarrow> Inr (r2\<lparr>rmax := Some n\<rparr>)))) of
        Inl e \<Rightarrow> Inl e
      | Inr r3 \<Rightarrow>
     (case (case py_contains ''exclusiveMaximum'' v of Inl e \<Rightarrow> Inl e
            | Inr False \<Rightarrow> Inr r3
            | Inr True \<Rightarrow>
               (case py_getitem v ''exclusiveMaximum'' of Inl e \<Rightarrow> Inl e
                | Inr a \<Rightarrow> (case py_int int_of_str a of Inl e \<Rightarrow> Inl e
                            | Inr n \<Rightarrow> Inr (r3\<lparr>rmax := Some (n - 1)\<rparr>)))) of
        Inl e \<Rightarrow> Inl e
      | Inr r4 \<Rightarrow>
          Inr (if rmin r4 \<noteq> None \<and> rmax r4 \<noteq> None
               then r4\<lparr>rdefined := True\<rparr> else r4))))))"

text \<open>
  \<open>determined_range["min"] in range(a, b)\<close>: membership of \<open>None\<close> in a \<open>range\<close> is
  \<open>False\<close>.
\<close>

fun bound_in_range :: "int option \<Rightarrow> int \<Rightarrow> int \<Rightarrow> bool" where
  "bound_in_range None a b = False"
| "bound_in_range (Some x) a b = in_range x a b"

definition convert_json_int ::
  "(string \<Rightarrow> int option) \<Rightarrow> json \<Rightarrow> error + spark_type" where
  "convert_json_int int_of_str v =
    (case determine_inclusive_range int_of_str v of Inl e \<Rightarrow> Inl e
     | Inr determined_range \<Rightarrow>
        Inr (if rdefined determined_range then
               (if bound_in_range (rmin determined_range) (- 128) (127 + 1)
                   \<and> bound_in_range (rmax determined_range) (- 128) (127 + 1)
                then ByteType
                else if bound_in_range (rmin determined_range) (- 32768) (32767 + 1)
                   \<and> bound_in_range (rmax determined_range) (- 32768) (32767 + 1)
                then ShortType
                else if bound_in_range (rmin determined_range) (- 2147483648) (2147483647 + 1)
                   \<and> bound_in_range (rmax determined_range) (- 2147483648) (2147483647 + 1)
                then IntegerType
                else LongType)
             else LongType))"

definition convert_json_number :: "json \<Rightarrow> spark_type" where
  "convert_json_number v = DoubleType"

definition convert_json_string :: "json \<Rightarrow> error + spark_type" where
  "convert_json_string v =
    (case py_contains ''format'' v of Inl e \<Rightarrow> Inl e
     | Inr False \<Rightarrow> Inr StringType
     | Inr True \<Rightarrow>
        (case py_getitem v ''format'' of Inl e \<Rightarrow> Inl e
         | Inr f \<Rightarrow>
            Inr (if f = JString ''date-time'' then TimestampType
                 else if f = JString ''date'' then DateType
                 else StringType)))"

text \<open>\<open>t.fields\<close>: an attribute of a \<open>StructType\<close> only.\<close>

fun fields :: "spark_type \<Rightarrow> error + struct_field list" where
  "fields (StructType fs) = Inr fs"
| "fields t = Inl AttributeError"

lemma size_lookup: "map_of kvs k = Some v \<Longrightarrow> size v < size (JObject kvs)"
  by (induction kvs) (auto split: if_splits)

lemma size_getitem: "py_getitem d k = Inr v \<Longrightarrow> size v < size d"
  by (cases d) (auto split: option.splits dest: size_lookup)

lemma size_member: "x \<in> set xs \<Longrightarrow> size x < size (JArray xs)"
  by (induction xs) auto

lemma size_iter:
  "py_iter (if isinstance_dict v then JArray [v] else v) = Inr xs \<Longrightarrow> x \<in> set xs
   \<Longrightarrow> size x \<le> size v"
  by (cases v) (auto dest: size_member less_imp_le)

lemma size_items: "py_items p = Inr kvs \<Longrightarrow> kv \<in> set kvs \<Longrightarrow> size (snd kv) < size p"
proof (cases p)
  case (JObject l)
  assume "py_items p = Inr kvs" "kv \<in> set kvs"
  with JObject have "kv \<in> set l" by simp
  then have "size (snd kv) < size (JObject l)" by (induction l) auto
  with JObject show ?thesis by simp
qed auto

text \<open>
  The two mutually recursive functions of the module. The loop over the item schemas
  and the loop over the properties are \<open>for_loop\<close>s whose state is the variable the body
  assigns (\<open>field_type\<close>, \<open>fields\<close>). The \<open>print\<close> of line 49 writes to standard output
  and has no part in the result.
\<close>

function map_json_type_to_spark_type ::
    "(string \<Rightarrow> int option) \<Rightarrow> json \<Rightarrow> error + spark_type option"
  and from_json_to_spark ::
    "(string \<Rightarrow> int option) \<Rightarrow> json \<Rightarrow> error + spark_type"
where
  "map_json_type_to_spark_type int_of_str json_snippet =
    (case py_contains ''type'' json_snippet of Inl e \<Rightarrow> Inl e
     | Inr True \<Rightarrow>
        (case py_getitem json_snippet ''type'' of Inl e \<Rightarrow> Inl e
         | Inr ty \<Rightarrow>
            if ty = JString ''string'' then
              (case convert_json_string json_snippet of Inl e \<Rightarrow> Inl e
               | Inr t \<Rightarrow> Inr (Some t))
            else if ty = JString ''boolean'' then Inr (Some BooleanType)
            else if ty = JString ''integer'' then
              (case convert_json_int int_of_str json_snippet of Inl e \<Rightarrow> Inl e
               | Inr t \<Rightarrow> Inr (Some t))
            else if ty = JString ''number'' then
              Inr (Some (convert_json_number json_snippet))
            else if ty = JString ''array'' then
              (case py_contains ''items'' json_snippet of Inl e \<Rightarrow> Inl e
               | Inr False \<Rightarrow> Inr None
               | Inr True \<Rightarrow>
                  (case py_getitem json_snippet ''items'' of Inl e \<Rightarrow> Inl e
                   | Inr items \<Rightarrow>
                      (let items_schemas =
                             (if isinstance_dict items then JArray [items] else items)
                       in case py_len items_schemas of Inl e \<Rightarrow> Inl e
                          | Inr n \<Rightarrow>
                             if n < 1 then Inl EmptyItems
                             else
                               (case py_iter items_schemas of Inl e \<Rightarrow> Inl e
                                | Inr item_list \<Rightarrow>
                                   for_loop
                                     (\<lambda>item_schema field_type.
                                        case py_getitem item_schema ''type'' of
                                          Inl e \<Rightarrow> Inl e
                                        | Inr ity \<Rightarrow>
                                           if ity = JString ''object'' then
                                             (case from_json_to_spark int_of_str item_schema of
                                                Inl e \<Rightarrow> Inl e
                                              | Inr st \<Rightarrow>
                                                 (case fields st of Inl e \<Rightarrow> Inl e
                                                  | Inr fs \<Rightarrow>
                                                     Inr (Some (ArrayType (Some (StructType fs))))))
                                           else
                                             (case map_json_type_to_spark_type int_of_str
                                                     item_schema of
                                                Inl e \<Rightarrow> Inl e
                                              | Inr t \<Rightarrow> Inr (Some (ArrayType t))))
                                     item_list None))))
            else if ty = JString ''object'' then
              (case from_json_to_spark int_of_str json_snippet of Inl e \<Rightarrow> Inl e
               | Inr st \<Rightarrow>
                  (case fields st of Inl e \<Rightarrow> Inl e
                   | Inr fs \<Rightarrow> Inr (Some (StructType fs))))
            else if ty = JString ''null'' then Inr (Some NullType)
            else if ty = JString ''any'' then Inr (Some StringType)
            else Inl (InvalidJSONType ty))
     | Inr False \<Rightarrow>
        (case py_contains ''anyOf'' json_snippet of Inl e \<Rightarrow> Inl e
         | Inr True \<Rightarrow> Inr (Some StringType)
         | Inr False \<Rightarrow>
            (case py_contains ''const'' json_snippet of Inl e \<Rightarrow> Inl e
             | Inr True \<Rightarrow> Inr (Some StringType)
             | Inr False \<Rightarrow> Inr None)))"
| "from_json_to_spark int_of_str schema =
    (case py_getitem schema ''properties'' of Inl e \<Rightarrow> Inl e
     | Inr properties \<Rightarrow>
        (case py_items properties of Inl e \<Rightarrow> Inl e
         | Inr property_items \<Rightarrow>
            (case for_loop
                    (\<lambda>kv fs.
                       case map_json_type_to_spark_type int_of_str (snd kv) of
                         Inl e \<Rightarrow> Inl e
                       | Inr field_type \<Rightarrow>
                          (case py_get schema ''required'' (JArray []) of Inl e \<Rightarrow> Inl e
                           | Inr required \<Rightarrow>
                              (case py_contains (fst kv) required of Inl e \<Rightarrow> Inl e
                               | Inr is_required \<Rightarrow>
                                  Inr (fs @ [StructField (fst kv) field_type
                                               (\<not> is_required)]))))
                    property_items [] of
               Inl e \<Rightarrow> Inl e
             | Inr fs \<Rightarrow> Inr (StructType fs))))"
  by pat_completeness auto

termination
  apply (relation "measure (\<lambda>a. case a of
          Inl (_, j) \<Rightarrow> 2 * size j + 1
        | Inr (_, j) \<Rightarrow> 2 * size j)")
  apply simp
  subgoal for i j b ty c items n xs x z
    by (auto dest!: size_getitem size_iter)
  subgoal by (auto dest!: size_getitem size_iter)
  subgoal by simp
  subgoal for int_of_str schema properties property_items kv
    using size_getitem [of schema "''properties''" properties]
      size_items [of properties property_items kv]
    by simp
  done

declare map_json_type_to_spark_type.simps [simp del]
declare from_json_to_spark.simps [simp del]

section \<open>The integer rule as the specification words it\<close>

text \<open>
  The bound keywords of a node, and the condition under which deriving the range raises
  nothing: every bound keyword that is present holds a value \<open>int()\<close> accepts.
\<close>

definition bound_keywords :: "string list" where
  "bound_keywords = [''minimum'', ''exclusiveMinimum'', ''maximum'', ''exclusiveMaximum'']"

definition bounds_convert :: "(string \<Rightarrow> int option) \<Rightarrow> (string \<times> json) list \<Rightarrow> bool" where
  "bounds_convert int_of_str kvs =
     list_all (\<lambda>k. case map_of kvs k of None \<Rightarrow> True
                    | Some a \<Rightarrow> (case py_int int_of_str a of Inl e \<Rightarrow> False | Inr n \<Rightarrow> True))
       bound_keywords"

text \<open>
  The inclusive bound in the specification's words: the exclusive keyword minus 1 where it
  is present, otherwise the inclusive keyword, otherwise undefined.
\<close>

definition int_value :: "(string \<Rightarrow> int option) \<Rightarrow> json \<Rightarrow> int option" where
  "int_value int_of_str a = (case py_int int_of_str a of Inl e \<Rightarrow> None | Inr n \<Rightarrow> Some n)"

definition inclusive_bound ::
  "(string \<Rightarrow> int option) \<Rightarrow> (string \<times> json) list \<Rightarrow> string \<Rightarrow> string \<Rightarrow> int option" where
  "inclusive_bound int_of_str kvs incl excl =
     (case map_of kvs excl of
        Some b \<Rightarrow> map_option (\<lambda>n. n - 1) (int_value int_of_str b)
      | None \<Rightarrow> (case map_of kvs incl of Some a \<Rightarrow> int_value int_of_str a | None \<Rightarrow> None))"

text \<open>
  The candidate integer types with their inclusive ranges, narrowest first, and the first
  of them that contains both bounds; \<open>LongType\<close> is the default.
\<close>

definition int_type_ranges :: "(spark_type \<times> int \<times> int) list" where
  "int_type_ranges =
     [(ByteType, - 128, 127), (ShortType, - 32768, 32767),
      (IntegerType, - 2147483648, 2147483647)]"

definition narrowest_int_type :: "int \<Rightarrow> int \<Rightarrow> spark_type" where
  "narrowest_int_type mn mx =
     (case find (\<lambda>(t, lo, hi). lo \<le> mn \<and> mn \<le> hi \<and> lo \<le> mx \<and> mx \<le> hi) int_type_ranges of
        Some (t, lo, hi) \<Rightarrow> t
      | None \<Rightarrow> LongType)"

text \<open>
  One statement \<open>if k in value: range[...] = ...\<close> of \<open>_determine_inclusive_range\<close>; the
  function is the sequence of four of them.
\<close>

definition bound_stmt ::
  "(string \<Rightarrow> int option) \<Rightarrow> json \<Rightarrow> string \<Rightarrow> (int \<Rightarrow> inclusive_range \<Rightarrow> inclusive_range)
   \<Rightarrow> inclusive_range \<Rightarrow> error + inclusive_range" where
  "bound_stmt si v k upd r =
     (case py_contains k v of Inl e \<Rightarrow> Inl e
      | Inr False \<Rightarrow> Inr r
      | Inr True \<Rightarrow>
         (case py_getitem v k of Inl e \<Rightarrow> Inl e
          | Inr a \<Rightarrow> (case py_int si a of Inl e \<Rightarrow> Inl e
                      | Inr n \<Rightarrow> Inr (upd n r))))"

section \<open>The dispatch and the loops as the specification words them\<close>

text \<open>The \<open>type\<close> strings of the dispatch table.\<close>

definition recognized_types :: "string list" where
  "recognized_types =
     [''string'', ''boolean'', ''integer'', ''number'', ''array'', ''object'', ''null'', ''any'']"

text \<open>\<open>schema.get('required', [])\<close> of a \<open>dict\<close>.\<close>

definition required_of :: "(string \<times> json) list \<Rightarrow> json" where
  "required_of kvs = (case map_of kvs ''required'' of None \<Rightarrow> JArray [] | Some v \<Rightarrow> v)"

text \<open>
  The type computed for one item schema of an array (the argument of \<open>ArrayType\<close> in
  the loop body).
\<close>

definition array_item_type ::
  "(string \<Rightarrow> int option) \<Rightarrow> json \<Rightarrow> error + spark_type option" where
  "array_item_type int_of_str item =
     (case py_getitem item ''type'' of Inl e \<Rightarrow> Inl e
      | Inr ity \<Rightarrow>
         if ity = JString ''object'' then
           (case from_json_to_spark int_of_str item of Inl e \<Rightarrow> Inl e
            | Inr st \<Rightarrow> (case fields st of Inl e \<Rightarrow> Inl e
                         | Inr fs \<Rightarrow> Inr (Some (StructType fs))))
         else map_json_type_to_spark_type int_of_str item)"

text \<open>
  Every property schema maps, and the membership test on \<open>required\<close> raises nothing;
  then the field built for one property.
\<close>

definition properties_map ::
  "(string \<Rightarrow> int option) \<Rightarrow> json \<Rightarrow> (string \<times> json) list \<Rightarrow> bool" where
  "properties_map int_of_str required props =
     list_all (\<lambda>kv. (case map_json_type_to_spark_type int_of_str (snd kv) of
                       Inl e \<Rightarrow> False | Inr t \<Rightarrow> True)
                  \<and> (case py_contains (fst kv) required of Inl e \<Rightarrow> False | Inr b \<Rightarrow> True))
       props"

definition field_of ::
  "(string \<Rightarrow> int option) \<Rightarrow> json \<Rightarrow> string \<times> json \<Rightarrow> struct_field" where
  "field_of int_of_str required kv =
     StructField (fst kv)
       (case map_json_type_to_spark_type int_of_str (snd kv) of Inl e \<Rightarrow> None | Inr t \<Rightarrow> t)
       (case py_contains (fst kv) required of Inl e \<Rightarrow> True | Inr b \<Rightarrow> \<not> b)"

section \<open>The inclusive numeric range\<close>

lemma range_of_dict:
  assumes "bounds_convert si kvs"
  shows "determine_inclusive_range si (JObject kvs) =
     Inr \<lparr>rmin = inclusive_bound si kvs ''minimum'' ''exclusiveMinimum'',
          rmax = inclusive_bound si kvs ''maximum'' ''exclusiveMaximum'',
          rdefined = (inclusive_bound si kvs ''minimum'' ''exclusiveMinimum'' \<noteq> None
             \<and> inclusive_bound si kvs ''maximum'' ''exclusiveMaximum'' \<noteq> None)\<rparr>"
  using assms
  by (auto simp: determine_inclusive_range_def bounds_convert_def bound_keywords_def
      inclusive_bound_def int_value_def split: option.splits sum.splits)

lemma range_raises:
  assumes "\<not> bounds_convert si kvs"
  shows "\<exists>e. determine_inclusive_range si (JObject kvs) = Inl e"
  using assms
  by (auto simp: determine_inclusive_range_def bounds_convert_def bound_keywords_def
      split: option.splits sum.splits)

lemma range_steps:
  "determine_inclusive_range si v =
    (case bound_stmt si v ''minimum'' (\<lambda>n r. r\<lparr>rmin := Some n\<rparr>)
            \<lparr>rmin = None, rmax = None, rdefined = False\<rparr> of
       Inl e \<Rightarrow> Inl e
     | Inr r1 \<Rightarrow>
    (case bound_stmt si v ''exclusiveMinimum'' (\<lambda>n r. r\<lparr>rmin := Some (n - 1)\<rparr>) r1 of
       Inl e \<Rightarrow> Inl e
     | Inr r2 \<Rightarrow>
    (case bound_stmt si v ''maximum'' (\<lambda>n r. r\<lparr>rmax := Some n\<rparr>) r2 of
       Inl e \<Rightarrow> Inl e
     | Inr r3 \<Rightarrow>
    (case bound_stmt si v ''exclusiveMaximum'' (\<lambda>n r. r\<lparr>rmax := Some (n - 1)\<rparr>) r3 of
       Inl e \<Rightarrow> Inl e
     | Inr r4 \<Rightarrow>
         Inr (if rmin r4 \<noteq> None \<and> rmax r4 \<noteq> None
              then r4\<lparr>rdefined := True\<rparr> else r4)))))"
  unfolding determine_inclusive_range_def bound_stmt_def Let_def ..

lemma bound_stmt_rdefined:
  assumes "bound_stmt si v k upd r = Inr r'" and "\<And>n q. rdefined (upd n q) = rdefined q"
  shows "rdefined r' = rdefined r"
  using assms by (auto simp: bound_stmt_def split: sum.splits bool.splits)

lemma range_defined_iff:
  assumes "determine_inclusive_range si v = Inr r"
  shows "rdefined r \<longleftrightarrow> rmin r \<noteq> None \<and> rmax r \<noteq> None"
proof -
  from assms obtain r1 r2 r3 r4 where
    s1: "bound_stmt si v ''minimum'' (\<lambda>n r. r\<lparr>rmin := Some n\<rparr>)
            \<lparr>rmin = None, rmax = None, rdefined = False\<rparr> = Inr r1" and
    s2: "bound_stmt si v ''exclusiveMinimum'' (\<lambda>n r. r\<lparr>rmin := Some (n - 1)\<rparr>) r1 = Inr r2" and
    s3: "bound_stmt si v ''maximum'' (\<lambda>n r. r\<lparr>rmax := Some n\<rparr>) r2 = Inr r3" and
    s4: "bound_stmt si v ''exclusiveMaximum'' (\<lambda>n r. r\<lparr>rmax := Some (n - 1)\<rparr>) r3 = Inr r4" and
    r: "r = (if rmin r4 \<noteq> None \<and> rmax r4 \<noteq> None then r4\<lparr>rdefined := True\<rparr> else r4)"
    unfolding range_steps by (auto split: sum.splits)
  have "rdefined r1 = False" using bound_stmt_rdefined [OF s1] by simp
  then have "rdefined r2 = False" using bound_stmt_rdefined [OF s2] by simp
  then have "rdefined r3 = False" using bound_stmt_rdefined [OF s3] by simp
  then have "rdefined r4 = False" using bound_stmt_rdefined [OF s4] by simp
  with r show ?thesis by (cases "rmin r4 \<noteq> None \<and> rmax r4 \<noteq> None") auto
qed

lemma convert_json_int_narrowest:
  assumes "determine_inclusive_range si v = Inr r"
  shows "convert_json_int si v =
     Inr (case rmin r of None \<Rightarrow> LongType
          | Some mn \<Rightarrow> (case rmax r of None \<Rightarrow> LongType
                        | Some mx \<Rightarrow> narrowest_int_type mn mx))"
proof -
  note d = range_defined_iff [OF assms]
  show ?thesis
  proof (cases "rmin r")
    case None
    with d assms show ?thesis by (simp add: convert_json_int_def)
  next
    case mn: (Some mn)
    show ?thesis
    proof (cases "rmax r")
      case None
      with d mn assms show ?thesis by (simp add: convert_json_int_def)
    next
      case mx: (Some mx)
      with d mn have "rdefined r" by simp
      with mn mx assms show ?thesis
        by (simp add: convert_json_int_def narrowest_int_type_def int_type_ranges_def
            in_range_def)
    qed
  qed
qed

lemma map_type_integer:
  assumes "map_of kvs ''type'' = Some (JString ''integer'')"
  shows "map_json_type_to_spark_type si (JObject kvs) =
     (case convert_json_int si (JObject kvs) of Inl e \<Rightarrow> Inl e | Inr t \<Rightarrow> Inr (Some t))"
  using assms by (simp add: map_json_type_to_spark_type.simps)

text \<open>
  C1. A node of type \<open>integer\<close> whose range derivation yields both \<open>min\<close> and \<open>max\<close>
  maps to the narrowest of \<open>ByteType\<close> [-128, 127], \<open>ShortType\<close> [-32768, 32767],
  \<open>IntegerType\<close> [-2147483648, 2147483647] that contains both bounds inclusively, the
  candidates tried narrowest first, and to \<open>LongType\<close> when none does; when either bound
  is missing it maps to \<open>LongType\<close>.
\<close>

theorem integer_width_narrowing:
  assumes "map_of kvs ''type'' = Some (JString ''integer'')"
    and "determine_inclusive_range si (JObject kvs) = Inr r"
  shows "map_json_type_to_spark_type si (JObject kvs) =
     Inr (Some (case rmin r of None \<Rightarrow> LongType
                | Some mn \<Rightarrow> (case rmax r of None \<Rightarrow> LongType
                              | Some mx \<Rightarrow> narrowest_int_type mn mx)))"
  by (simp add: map_type_integer [OF assms(1)] convert_json_int_narrowest [OF assms(2)])

theorem integer_width_narrowing_witness:
  "map_of [(''type'', JString ''integer''), (''minimum'', JInt (- 129)), (''maximum'', JInt 127)]
      ''type'' = Some (JString ''integer'')
   \<and> determine_inclusive_range (\<lambda>s. None)
        (JObject [(''type'', JString ''integer''), (''minimum'', JInt (- 129)),
                  (''maximum'', JInt 127)])
      = Inr \<lparr>rmin = Some (- 129), rmax = Some 127, rdefined = True\<rparr>
   \<and> map_json_type_to_spark_type (\<lambda>s. None)
        (JObject [(''type'', JString ''integer''), (''minimum'', JInt (- 129)),
                  (''maximum'', JInt 127)])
      = Inr (Some ShortType)"
proof -
  let ?kvs = "[(''type'', JString ''integer''), (''minimum'', JInt (- 129)),
               (''maximum'', JInt 127)]"
  have t: "map_of ?kvs ''type'' = Some (JString ''integer'')" by simp
  have r: "determine_inclusive_range (\<lambda>s. None) (JObject ?kvs)
      = Inr \<lparr>rmin = Some (- 129), rmax = Some 127, rdefined = True\<rparr>"
    by code_simp
  have n: "narrowest_int_type (- 129) 127 = ShortType"
    by (simp add: narrowest_int_type_def int_type_ranges_def)
  from integer_width_narrowing [OF t r] have m:
    "map_json_type_to_spark_type (\<lambda>s. None) (JObject ?kvs) = Inr (Some ShortType)"
    by (simp only: n inclusive_range.simps option.case)
  show ?thesis by (intro conjI) (rule t r m)+
qed


text \<open>
  C2. The derived range takes \<open>min\<close> from \<open>exclusiveMinimum\<close> minus 1 or from \<open>minimum\<close>,
  and \<open>max\<close> from \<open>exclusiveMaximum\<close> minus 1 or from \<open>maximum\<close>; it counts as defined
  if and only if both \<open>min\<close> and \<open>max\<close> were resolved.
\<close>

theorem inclusive_range_derivation:
  assumes "bounds_convert si kvs"
  shows "\<exists>r. determine_inclusive_range si (JObject kvs) = Inr r
     \<and> rmin r = inclusive_bound si kvs ''minimum'' ''exclusiveMinimum''
     \<and> rmax r = inclusive_bound si kvs ''maximum'' ''exclusiveMaximum''
     \<and> (rdefined r \<longleftrightarrow> rmin r \<noteq> None \<and> rmax r \<noteq> None)"
  by (simp add: range_of_dict [OF assms])

theorem inclusive_range_derivation_witness:
  "bounds_convert (\<lambda>s. None) [(''minimum'', JInt 0), (''exclusiveMaximum'', JInt 256)]
   \<and> (\<exists>r. determine_inclusive_range (\<lambda>s. None)
             (JObject [(''minimum'', JInt 0), (''exclusiveMaximum'', JInt 256)]) = Inr r
        \<and> rmin r = Some 0 \<and> rmax r = Some 255 \<and> rdefined r)"
proof -
  let ?kvs = "[(''minimum'', JInt 0), (''exclusiveMaximum'', JInt 256)]"
  have c: "bounds_convert (\<lambda>s. None) ?kvs"
    by (simp add: bounds_convert_def bound_keywords_def)
  have lo: "inclusive_bound (\<lambda>s. None) ?kvs ''minimum'' ''exclusiveMinimum'' = Some 0"
    by (simp add: inclusive_bound_def int_value_def)
  have hi: "inclusive_bound (\<lambda>s. None) ?kvs ''maximum'' ''exclusiveMaximum'' = Some 255"
    by (simp add: inclusive_bound_def int_value_def)
  from inclusive_range_derivation [OF c] obtain r where
    "determine_inclusive_range (\<lambda>s. None) (JObject ?kvs) = Inr r"
    "rmin r = Some 0" "rmax r = Some 255" "rdefined r"
    unfolding lo hi by auto
  then have "\<exists>r. determine_inclusive_range (\<lambda>s. None) (JObject ?kvs) = Inr r
        \<and> rmin r = Some 0 \<and> rmax r = Some 255 \<and> rdefined r"
    by (intro exI conjI)
  with c show ?thesis by (rule conjI)
qed

text \<open>
  C10. In a node that has both \<open>minimum\<close> and \<open>exclusiveMinimum\<close>, the range's \<open>min\<close> is
  the integer value of \<open>exclusiveMinimum\<close> minus 1; likewise \<open>max\<close> is the integer value
  of \<open>exclusiveMaximum\<close> minus 1 when both \<open>maximum\<close> and \<open>exclusiveMaximum\<close> are present.
\<close>

theorem exclusive_bound_precedence:
  assumes "bounds_convert si kvs"
  shows "\<exists>r. determine_inclusive_range si (JObject kvs) = Inr r
     \<and> (\<forall>a b. map_of kvs ''minimum'' = Some a \<and> map_of kvs ''exclusiveMinimum'' = Some b
            \<longrightarrow> (\<exists>n. py_int si b = Inr n \<and> rmin r = Some (n - 1)))
     \<and> (\<forall>a b. map_of kvs ''maximum'' = Some a \<and> map_of kvs ''exclusiveMaximum'' = Some b
            \<longrightarrow> (\<exists>n. py_int si b = Inr n \<and> rmax r = Some (n - 1)))"
proof -
  have lo: "\<exists>n. py_int si b = Inr n
      \<and> inclusive_bound si kvs ''minimum'' ''exclusiveMinimum'' = Some (n - 1)"
    if "map_of kvs ''exclusiveMinimum'' = Some b" for b
    using assms that
    by (auto simp: bounds_convert_def bound_keywords_def inclusive_bound_def int_value_def
        split: sum.splits)
  have hi: "\<exists>n. py_int si b = Inr n
      \<and> inclusive_bound si kvs ''maximum'' ''exclusiveMaximum'' = Some (n - 1)"
    if "map_of kvs ''exclusiveMaximum'' = Some b" for b
    using assms that
    by (auto simp: bounds_convert_def bound_keywords_def inclusive_bound_def int_value_def
        split: sum.splits)
  show ?thesis
    unfolding range_of_dict [OF assms] using lo hi by simp
qed

theorem exclusive_bound_precedence_witness:
  "bounds_convert (\<lambda>s. None)
     [(''minimum'', JInt 10), (''exclusiveMinimum'', JInt 0),
      (''maximum'', JInt 5), (''exclusiveMaximum'', JInt 100)]
   \<and> (\<exists>r. determine_inclusive_range (\<lambda>s. None)
         (JObject [(''minimum'', JInt 10), (''exclusiveMinimum'', JInt 0),
                   (''maximum'', JInt 5), (''exclusiveMaximum'', JInt 100)]) = Inr r
        \<and> rmin r = Some (- 1) \<and> rmax r = Some 99)"
proof -
  let ?kvs = "[(''minimum'', JInt 10), (''exclusiveMinimum'', JInt 0),
               (''maximum'', JInt 5), (''exclusiveMaximum'', JInt 100)]"
  have c: "bounds_convert (\<lambda>s. None) ?kvs"
    by (simp add: bounds_convert_def bound_keywords_def)
  have m: "map_of ?kvs ''minimum'' = Some (JInt 10) \<and> map_of ?kvs ''exclusiveMinimum'' = Some (JInt 0)"
    "map_of ?kvs ''maximum'' = Some (JInt 5) \<and> map_of ?kvs ''exclusiveMaximum'' = Some (JInt 100)"
    by simp_all
  from exclusive_bound_precedence [OF c] obtain r where
    r: "determine_inclusive_range (\<lambda>s. None) (JObject ?kvs) = Inr r" and
    lo: "\<forall>a b. map_of ?kvs ''minimum'' = Some a \<and> map_of ?kvs ''exclusiveMinimum'' = Some b
            \<longrightarrow> (\<exists>n. py_int (\<lambda>s. None) b = Inr n \<and> rmin r = Some (n - 1))" and
    hi: "\<forall>a b. map_of ?kvs ''maximum'' = Some a \<and> map_of ?kvs ''exclusiveMaximum'' = Some b
            \<longrightarrow> (\<exists>n. py_int (\<lambda>s. None) b = Inr n \<and> rmax r = Some (n - 1))"
    by blast
  from lo m(1) have "\<exists>n. py_int (\<lambda>s. None) (JInt 0) = Inr n \<and> rmin r = Some (n - 1)" by blast
  then have a: "rmin r = Some (- 1)" by simp
  from hi m(2) have "\<exists>n. py_int (\<lambda>s. None) (JInt 100) = Inr n \<and> rmax r = Some (n - 1)" by blast
  then have b: "rmax r = Some 99" by simp
  from r a b have "\<exists>r. determine_inclusive_range (\<lambda>s. None) (JObject ?kvs) = Inr r
        \<and> rmin r = Some (- 1) \<and> rmax r = Some 99"
    by (intro exI conjI)
  with c show ?thesis by (rule conjI)
qed

section \<open>Structs and arrays\<close>

lemma for_loop_append:
  assumes "\<And>x acc. x \<in> set xs \<Longrightarrow> body x acc = Inr (acc @ [g x])"
  shows "for_loop body xs acc = Inr (acc @ map g xs)"
  using assms by (induction xs arbitrary: acc) auto

lemma for_loop_overwrite:
  assumes "xs \<noteq> []" and "\<And>x s. x \<in> set xs \<Longrightarrow> body x s = Inr (g x)"
  shows "for_loop body xs s = Inr (g (last xs))"
  using assms
proof (induction xs arbitrary: s)
  case Nil
  then show ?case by simp
next
  case (Cons x xs)
  show ?case
  proof (cases "xs = []")
    case True
    with Cons.prems show ?thesis by simp
  next
    case False
    have "for_loop body xs (g x) = Inr (g (last xs))"
      using Cons.IH [OF False] Cons.prems(2) by simp
    with False Cons.prems(2) show ?thesis by simp
  qed
qed

lemma from_json_to_spark_dict:
  assumes "map_of kvs ''properties'' = Some (JObject props)"
    and "properties_map si (required_of kvs) props"
  shows "from_json_to_spark si (JObject kvs) =
     Inr (StructType (map (field_of si (required_of kvs)) props))"
proof -
  let ?body = "\<lambda>kv fs.
      case map_json_type_to_spark_type si (snd kv) of
        Inl e \<Rightarrow> Inl e
      | Inr field_type \<Rightarrow>
         (case py_get (JObject kvs) ''required'' (JArray []) of Inl e \<Rightarrow> Inl e
          | Inr required \<Rightarrow>
             (case py_contains (fst kv) required of Inl e \<Rightarrow> Inl e
              | Inr is_required \<Rightarrow>
                 Inr (fs @ [StructField (fst kv) field_type (\<not> is_required)])))"
  have step: "?body kv acc = Inr (acc @ [field_of si (required_of kvs) kv])"
    if "kv \<in> set props" for kv acc
  proof -
    from assms(2) that have ok:
      "(case map_json_type_to_spark_type si (snd kv) of Inl e \<Rightarrow> False | Inr t \<Rightarrow> True)"
      "(case py_contains (fst kv) (required_of kvs) of Inl e \<Rightarrow> False | Inr b \<Rightarrow> True)"
      by (simp_all add: properties_map_def list_all_iff)
    from ok(1) obtain t where "map_json_type_to_spark_type si (snd kv) = Inr t"
      by (cases "map_json_type_to_spark_type si (snd kv)") simp_all
    moreover from ok(2) obtain b where "py_contains (fst kv) (required_of kvs) = Inr b"
      by (cases "py_contains (fst kv) (required_of kvs)") simp_all
    ultimately show ?thesis by (simp add: field_of_def required_of_def)
  qed
  have "for_loop ?body props [] = Inr ([] @ map (field_of si (required_of kvs)) props)"
    by (rule for_loop_append) (rule step)
  with assms(1) show ?thesis
    by (simp add: from_json_to_spark.simps [of si "JObject kvs"])
qed

lemma struct_of_no_properties:
  "from_json_to_spark int_of_str (JObject [(''properties'', JObject [])]) = Inr (StructType [])"
  by (simp add: from_json_to_spark.simps [of int_of_str "JObject [(''properties'', JObject [])]"])

lemma items_loop_body:
  "(\<lambda>item_schema (field_type :: spark_type option).
      case py_getitem item_schema ''type'' of
        Inl e \<Rightarrow> Inl e
      | Inr ity \<Rightarrow>
         if ity = JString ''object'' then
           (case from_json_to_spark si item_schema of
              Inl e \<Rightarrow> Inl e
            | Inr st \<Rightarrow>
               (case fields st of Inl e \<Rightarrow> Inl e
                | Inr fs \<Rightarrow> Inr (Some (ArrayType (Some (StructType fs))))))
         else
           (case map_json_type_to_spark_type si item_schema of
              Inl e \<Rightarrow> Inl e
            | Inr t \<Rightarrow> Inr (Some (ArrayType t))))
   = (\<lambda>item_schema field_type.
        case array_item_type si item_schema of Inl e \<Rightarrow> Inl e
        | Inr t \<Rightarrow> Inr (Some (ArrayType t)))"
  by (intro ext) (simp add: array_item_type_def split: sum.splits)

text \<open>
  C3. For an object node whose property schemas all map, the result is a struct with
  exactly one field per property, in the iteration order of \<open>properties\<close>, each field
  carrying the type its property's schema maps to; this includes the empty mapping, which
  yields the struct of no fields and raises nothing.
\<close>

theorem struct_fields_follow_properties:
  assumes "map_of kvs ''properties'' = Some (JObject props)"
    and "properties_map si (required_of kvs) props"
  shows "\<exists>fs. from_json_to_spark si (JObject kvs) = Inr (StructType fs)
           \<and> map name fs = map fst props
           \<and> list_all2 (\<lambda>f kv. map_json_type_to_spark_type si (snd kv) = Inr (dataType f))
                fs props"
proof -
  let ?fs = "map (field_of si (required_of kvs)) props"
  have r: "from_json_to_spark si (JObject kvs) = Inr (StructType ?fs)"
    by (rule from_json_to_spark_dict [OF assms])
  have n: "map name ?fs = map fst props"
    by (simp add: field_of_def comp_def)
  have "map_json_type_to_spark_type si (snd kv)
      = Inr (dataType (field_of si (required_of kvs) kv))" if "kv \<in> set props" for kv
  proof -
    from assms(2) that have
      "(case map_json_type_to_spark_type si (snd kv) of Inl e \<Rightarrow> False | Inr t \<Rightarrow> True)"
      by (simp add: properties_map_def list_all_iff)
    then show ?thesis
      by (cases "map_json_type_to_spark_type si (snd kv)") (simp_all add: field_of_def)
  qed
  then have t: "list_all2 (\<lambda>f kv. map_json_type_to_spark_type si (snd kv) = Inr (dataType f))
      ?fs props"
    by (simp add: list_all2_map1 list_all2_same)
  from r n t show ?thesis by blast
qed

theorem struct_fields_follow_properties_witness:
  "map_of [(''properties'', JObject [(''b'', JObject [(''type'', JString ''boolean'')]),
                                      (''a'', JObject [(''type'', JString ''string'')])])]
      ''properties''
     = Some (JObject [(''b'', JObject [(''type'', JString ''boolean'')]),
                      (''a'', JObject [(''type'', JString ''string'')])])
   \<and> properties_map (\<lambda>s. None)
        (required_of [(''properties'', JObject [(''b'', JObject [(''type'', JString ''boolean'')]),
                                      (''a'', JObject [(''type'', JString ''string'')])])])
        [(''b'', JObject [(''type'', JString ''boolean'')]),
         (''a'', JObject [(''type'', JString ''string'')])]
   \<and> (\<exists>fs. from_json_to_spark (\<lambda>s. None)
          (JObject [(''properties'', JObject [(''b'', JObject [(''type'', JString ''boolean'')]),
                                      (''a'', JObject [(''type'', JString ''string'')])])])
          = Inr (StructType fs)
        \<and> map name fs = [''b'', ''a''])
   \<and> from_json_to_spark (\<lambda>s. None)
          (JObject [(''properties'', JObject [(''b'', JObject [(''type'', JString ''boolean'')]),
                                      (''a'', JObject [(''type'', JString ''string'')])])])
       = Inr (StructType [StructField ''b'' (Some BooleanType) True,
                          StructField ''a'' (Some StringType) True])"
proof -
  let ?props = "[(''b'', JObject [(''type'', JString ''boolean'')]),
                 (''a'', JObject [(''type'', JString ''string'')])]"
  let ?kvs = "[(''properties'', JObject ?props)]"
  have p: "map_of ?kvs ''properties'' = Some (JObject ?props)" by simp
  have m: "properties_map (\<lambda>s. None) (required_of ?kvs) ?props" by code_simp
  have e: "from_json_to_spark (\<lambda>s. None) (JObject ?kvs)
       = Inr (StructType [StructField ''b'' (Some BooleanType) True,
                          StructField ''a'' (Some StringType) True])" by code_simp
  from struct_fields_follow_properties [OF p m] obtain fs where
    "from_json_to_spark (\<lambda>s. None) (JObject ?kvs) = Inr (StructType fs)"
    "map name fs = map fst ?props" by blast
  then have t: "\<exists>fs. from_json_to_spark (\<lambda>s. None) (JObject ?kvs) = Inr (StructType fs)
        \<and> map name fs = [''b'', ''a'']" by simp
  show ?thesis by (intro conjI) (rule p m t e)+
qed

text \<open>
  C4. Every field of the resulting struct is non-nullable if and only if its name is in
  the node's \<open>required\<close> list, the list being empty when the key is absent.
\<close>

theorem nullable_iff_not_required:
  assumes "map_of kvs ''properties'' = Some (JObject props)"
    and "required_of kvs = JArray required"
    and "properties_map si (required_of kvs) props"
  shows "\<exists>fs. from_json_to_spark si (JObject kvs) = Inr (StructType fs)
           \<and> list_all (\<lambda>f. nullable f = False \<longleftrightarrow> JString (name f) \<in> set required) fs"
  by (simp add: from_json_to_spark_dict [OF assms(1,3)] assms(2) field_of_def list_all_iff)

theorem nullable_iff_not_required_witness:
  "map_of [(''properties'', JObject [(''b'', JObject [(''type'', JString ''boolean'')]),
                                      (''a'', JObject [(''type'', JString ''string'')])]),
           (''required'', JArray [JString ''a''])]
      ''properties''
     = Some (JObject [(''b'', JObject [(''type'', JString ''boolean'')]),
                      (''a'', JObject [(''type'', JString ''string'')])])
   \<and> required_of [(''properties'', JObject [(''b'', JObject [(''type'', JString ''boolean'')]),
                                      (''a'', JObject [(''type'', JString ''string'')])]),
           (''required'', JArray [JString ''a''])] = JArray [JString ''a'']
   \<and> properties_map (\<lambda>s. None)
        (required_of [(''properties'', JObject [(''b'', JObject [(''type'', JString ''boolean'')]),
                                      (''a'', JObject [(''type'', JString ''string'')])]),
           (''required'', JArray [JString ''a''])])
        [(''b'', JObject [(''type'', JString ''boolean'')]),
         (''a'', JObject [(''type'', JString ''string'')])]
   \<and> (\<exists>fs. from_json_to_spark (\<lambda>s. None)
          (JObject [(''properties'', JObject [(''b'', JObject [(''type'', JString ''boolean'')]),
                                      (''a'', JObject [(''type'', JString ''string'')])]),
           (''required'', JArray [JString ''a''])])
          = Inr (StructType fs)
        \<and> list_all (\<lambda>f. nullable f = False \<longleftrightarrow> JString (name f) \<in> set [JString ''a'']) fs)
   \<and> from_json_to_spark (\<lambda>s. None)
          (JObject [(''properties'', JObject [(''b'', JObject [(''type'', JString ''boolean'')]),
                                      (''a'', JObject [(''type'', JString ''string'')])]),
           (''required'', JArray [JString ''a''])])
       = Inr (StructType [StructField ''b'' (Some BooleanType) True,
                          StructField ''a'' (Some StringType) False])"
proof -
  let ?props = "[(''b'', JObject [(''type'', JString ''boolean'')]),
                 (''a'', JObject [(''type'', JString ''string'')])]"
  let ?kvs = "[(''properties'', JObject ?props), (''required'', JArray [JString ''a''])]"
  have p: "map_of ?kvs ''properties'' = Some (JObject ?props)" by simp
  have r: "required_of ?kvs = JArray [JString ''a'']" by (simp add: required_of_def)
  have m: "properties_map (\<lambda>s. None) (required_of ?kvs) ?props" by code_simp
  have e: "from_json_to_spark (\<lambda>s. None) (JObject ?kvs)
       = Inr (StructType [StructField ''b'' (Some BooleanType) True,
                          StructField ''a'' (Some StringType) False])" by code_simp
  note t = nullable_iff_not_required [OF p r m]
  show ?thesis by (intro conjI) (rule p r m t e)+
qed

text \<open>
  C5. For an array node with more than one item schema, all of which map, the result is
  \<open>ArrayType\<close> of the type computed for the last item.
\<close>

theorem array_last_item_wins:
  assumes "map_of kvs ''type'' = Some (JString ''array'')"
    and "map_of kvs ''items'' = Some (JArray item_list)"
    and "1 < length item_list"
    and "list_all (\<lambda>item. case array_item_type si item of Inl e \<Rightarrow> False | Inr t \<Rightarrow> True)
           item_list"
  shows "\<exists>t. array_item_type si (last item_list) = Inr t
           \<and> map_json_type_to_spark_type si (JObject kvs) = Inr (Some (ArrayType t))"
proof -
  define g where "g item = Some (ArrayType (case array_item_type si item of
      Inl e \<Rightarrow> None | Inr t \<Rightarrow> t))" for item
  let ?body = "\<lambda>item_schema (field_type :: spark_type option).
        case array_item_type si item_schema of Inl e \<Rightarrow> Inl e
        | Inr t \<Rightarrow> Inr (Some (ArrayType t))"
  from assms(3) have ne: "item_list \<noteq> []" by auto
  have step: "?body item s = Inr (g item)" if "item \<in> set item_list" for item s
    using assms(4) that by (auto simp: list_all_iff g_def split: sum.splits)
  have loop: "for_loop ?body item_list None = Inr (g (last item_list))"
    using ne step by (rule for_loop_overwrite)
  from ne have "last item_list \<in> set item_list" by simp
  with assms(4) have
    "(case array_item_type si (last item_list) of Inl e \<Rightarrow> False | Inr t \<Rightarrow> True)"
    by (simp add: list_all_iff)
  then obtain t where t: "array_item_type si (last item_list) = Inr t"
    by (cases "array_item_type si (last item_list)") simp_all
  have "map_json_type_to_spark_type si (JObject kvs) = for_loop ?body item_list None"
    using assms(1,2) ne
    by (simp add: map_json_type_to_spark_type.simps [of si "JObject kvs"] items_loop_body)
  with loop t show ?thesis by (simp add: g_def)
qed

theorem array_last_item_wins_witness:
  "map_of [(''type'', JString ''array''),
           (''items'', JArray [JObject [(''type'', JString ''string'')],
                               JObject [(''type'', JString ''boolean'')]])] ''type''
     = Some (JString ''array'')
   \<and> map_of [(''type'', JString ''array''),
           (''items'', JArray [JObject [(''type'', JString ''string'')],
                               JObject [(''type'', JString ''boolean'')]])] ''items''
     = Some (JArray [JObject [(''type'', JString ''string'')],
                     JObject [(''type'', JString ''boolean'')]])
   \<and> 1 < length [JObject [(''type'', JString ''string'')],
                  JObject [(''type'', JString ''boolean'')]]
   \<and> list_all (\<lambda>item. case array_item_type (\<lambda>s. None) item of Inl e \<Rightarrow> False | Inr t \<Rightarrow> True)
         [JObject [(''type'', JString ''string'')], JObject [(''type'', JString ''boolean'')]]
   \<and> map_json_type_to_spark_type (\<lambda>s. None)
        (JObject [(''type'', JString ''array''),
           (''items'', JArray [JObject [(''type'', JString ''string'')],
                               JObject [(''type'', JString ''boolean'')]])])
       = Inr (Some (ArrayType (Some BooleanType)))"
proof -
  let ?items = "[JObject [(''type'', JString ''string'')],
                 JObject [(''type'', JString ''boolean'')]]"
  let ?kvs = "[(''type'', JString ''array''), (''items'', JArray ?items)]"
  have a: "map_of ?kvs ''type'' = Some (JString ''array'')" by simp
  have b: "map_of ?kvs ''items'' = Some (JArray ?items)" by simp
  have c: "1 < length ?items" by simp
  have d: "list_all (\<lambda>item. case array_item_type (\<lambda>s. None) item of
      Inl e \<Rightarrow> False | Inr t \<Rightarrow> True) ?items" by code_simp
  have l: "array_item_type (\<lambda>s. None) (last ?items) = Inr (Some BooleanType)" by code_simp
  from array_last_item_wins [OF a b c d] l have
    e: "map_json_type_to_spark_type (\<lambda>s. None) (JObject ?kvs)
       = Inr (Some (ArrayType (Some BooleanType)))" by simp
  show ?thesis by (intro conjI) (rule a b c d e)+
qed

section \<open>Dispatch and errors\<close>

text \<open>
  C7. A node with no \<open>type\<close>, no \<open>anyOf\<close> and no \<open>const\<close> key maps to no value: the
  mapper returns \<open>None\<close> to its caller and raises nothing.
\<close>

theorem untyped_node_maps_to_none:
  assumes "map_of kvs ''type'' = None" and "map_of kvs ''anyOf'' = None"
    and "map_of kvs ''const'' = None"
  shows "map_json_type_to_spark_type si (JObject kvs) = Inr None"
  using assms by (simp add: map_json_type_to_spark_type.simps [of si "JObject kvs"])

theorem untyped_node_maps_to_none_witness:
  "map_of [(''description'', JString ''x'')] ''type'' = None
   \<and> map_of [(''description'', JString ''x'')] ''anyOf'' = None
   \<and> map_of [(''description'', JString ''x'')] ''const'' = None
   \<and> map_json_type_to_spark_type (\<lambda>s. None) (JObject [(''description'', JString ''x'')])
       = Inr None"
proof -
  let ?kvs = "[(''description'', JString ''x'')]"
  have a: "map_of ?kvs ''type'' = None" by simp
  have b: "map_of ?kvs ''anyOf'' = None" by simp
  have c: "map_of ?kvs ''const'' = None" by simp
  note r = untyped_node_maps_to_none [OF a b c, of "\<lambda>s. None"]
  show ?thesis by (intro conjI) (rule a b c r)+
qed

text \<open>
  C8. A node whose \<open>type\<close> is a string outside the recognized set makes the mapper raise
  the invalid-type error; there is no result.
\<close>

theorem unknown_type_raises:
  assumes "map_of kvs ''type'' = Some (JString t)" and "t \<notin> set recognized_types"
  shows "map_json_type_to_spark_type si (JObject kvs) = Inl (InvalidJSONType (JString t))"
  using assms
  by (simp add: map_json_type_to_spark_type.simps [of si "JObject kvs"] recognized_types_def)

theorem unknown_type_raises_witness:
  "map_of [(''type'', JString ''frobnicate'')] ''type'' = Some (JString ''frobnicate'')
   \<and> ''frobnicate'' \<notin> set recognized_types
   \<and> map_json_type_to_spark_type (\<lambda>s. None) (JObject [(''type'', JString ''frobnicate'')])
       = Inl (InvalidJSONType (JString ''frobnicate''))"
proof -
  let ?kvs = "[(''type'', JString ''frobnicate'')]"
  have a: "map_of ?kvs ''type'' = Some (JString ''frobnicate'')" by simp
  have b: "''frobnicate'' \<notin> set recognized_types" by (simp add: recognized_types_def)
  note r = unknown_type_raises [OF a b, of "\<lambda>s. None"]
  show ?thesis by (intro conjI) (rule a b r)+
qed

text \<open>
  C9. An array node whose \<open>items\<close> key is present and whose normalized items have length
  zero makes the mapper raise the empty-items error.
\<close>

theorem empty_items_raises:
  assumes "map_of kvs ''type'' = Some (JString ''array'')"
    and "map_of kvs ''items'' = Some items"
    and "py_len (if isinstance_dict items then JArray [items] else items) = Inr 0"
  shows "map_json_type_to_spark_type si (JObject kvs) = Inl EmptyItems"
  using assms
  by (simp add: map_json_type_to_spark_type.simps [of si "JObject kvs"] Let_def)

theorem empty_items_raises_witness:
  "map_of [(''type'', JString ''array''), (''items'', JArray [])] ''type''
      = Some (JString ''array'')
   \<and> map_of [(''type'', JString ''array''), (''items'', JArray [])] ''items'' = Some (JArray [])
   \<and> py_len (if isinstance_dict (JArray []) then JArray [JArray []] else JArray []) = Inr 0
   \<and> map_json_type_to_spark_type (\<lambda>s. None)
         (JObject [(''type'', JString ''array''), (''items'', JArray [])]) = Inl EmptyItems"
proof -
  let ?kvs = "[(''type'', JString ''array''), (''items'', JArray [])]"
  have a: "map_of ?kvs ''type'' = Some (JString ''array'')" by simp
  have b: "map_of ?kvs ''items'' = Some (JArray [])" by simp
  have c: "py_len (if isinstance_dict (JArray []) then JArray [JArray []] else JArray [])
      = Inr 0" by simp
  note r = empty_items_raises [OF a b c, of "\<lambda>s. None"]
  show ?thesis by (intro conjI) (rule a b c r)+
qed

text \<open>
  C6. An array whose item schema has no \<open>type\<close> key but has \<open>anyOf\<close> should map to an
  array of strings. The loop reads \<open>item_schema['type']\<close> before it delegates to the
  mapper, so the lookup raises \<open>KeyError\<close>.
\<close>

theorem anyOf_item_raises_KeyError:
  "map_json_type_to_spark_type int_of_str
     (JObject [(''type'', JString ''array''),
               (''items'', JObject [(''anyOf'', JArray [JObject [(''type'', JString ''string'')],
                                                      JObject [(''type'', JString ''integer'')]])])])
   = Inl (KeyError ''type'')"
  by (simp add: map_json_type_to_spark_type.simps
      [of int_of_str "JObject [(''type'', JString ''array''), (''items'', JObject [(''anyOf'', JArray [JObject [(''type'', JString ''string'')], JObject [(''type'', JString ''integer'')]])])]"])

text \<open>The same schema as the value of a property is mapped to \<open>StringType\<close>.\<close>

lemma anyOf_property:
  "map_json_type_to_spark_type int_of_str
     (JObject [(''anyOf'', JArray [JObject [(''type'', JString ''string'')],
                                  JObject [(''type'', JString ''integer'')]])])
   = Inr (Some StringType)"
  by (simp add: map_json_type_to_spark_type.simps
      [of int_of_str "JObject [(''anyOf'', JArray [JObject [(''type'', JString ''string'')], JObject [(''type'', JString ''integer'')]])]"])

end
